theory Spec2Isabelle
  imports Complex_Main
begin

section \<open>Beacon storage module: data model\<close>

text \<open>
  The module \<^verbatim>\<open>src/js/beacon-storage.js\<close> keeps every document as a string in the
  browser's \<^verbatim>\<open>localStorage\<close> and reads it back with \<^verbatim>\<open>JSON.parse\<close>.  A stored
  string is modelled by what \<^verbatim>\<open>JSON.parse\<close> makes of it: \<open>Raw t\<close> is a text \<open>t\<close>
  that is not valid JSON (the parse throws a \<^verbatim>\<open>SyntaxError\<close>; the empty string is
  \<open>Raw []\<close>), \<open>Doc v\<close> is the JSON text of the value \<open>v\<close>.  A key that is not set
  reads as \<^verbatim>\<open>null\<close>, here \<open>None\<close>.
\<close>

datatype json =
    JNull
  | JBool bool
  | JNum rat
  | JStr string
  | JArr "json list"
  | JObj "(string \<times> json) list"

text \<open>
  \<open>JObj kvs\<close> lists the own properties of a parsed object in the order
  \<^verbatim>\<open>Object.entries\<close> enumerates them; its keys are distinct.
\<close>

datatype js_error = SyntaxError | TypeError | QuotaExceededError

datatype 'a item = Raw string | Doc 'a

text \<open>
  A context is the object \<^verbatim>\<open>{ week, day, promptIndex }\<close>.  Each component is a
  JavaScript number that came from a caller or from \<^verbatim>\<open>parseInt\<close>; \<open>None\<close> is
  \<^verbatim>\<open>NaN\<close>, which \<^verbatim>\<open>JSON.stringify\<close> persists as \<^verbatim>\<open>null\<close> and which is
  \<^verbatim>\<open>===\<close> to nothing.
\<close>

record context_triple =
  week :: "int option"
  day :: "int option"
  promptIndex :: "int option"

text \<open>
  A timestamp field holds either \<open>ISO t\<close>, the string
  \<^verbatim>\<open>new Date(t).toISOString()\<close> of the instant \<open>t\<close> (milliseconds since the epoch),
  or \<open>Legacy v\<close>, a value copied unchanged from a legacy record.
\<close>

datatype stamp = ISO int | Legacy json

text \<open>
  The entry object of \<^verbatim>\<open>createEntry\<close>.  The fields \<^verbatim>\<open>id\<close>, \<^verbatim>\<open>type\<close> and
  \<^verbatim>\<open>context\<close> carry the prefix \<open>entry_\<close>, since the plain names are taken in
  Isabelle.
\<close>

record entry =
  entry_id :: string
  entry_type :: string
  content :: string
  prompt :: json
  entry_context :: "context_triple option"
  createdAt :: stamp
  updatedAt :: stamp

text \<open>
  The progress object.  \<open>completedDays\<close> is the object
  \<^verbatim>\<open>{"<week>-<day>": isoTimestamp}\<close> as a property list, each value the instant of
  the ISO string stored; \<open>lastCompletedDate\<close> is the instant of the stored ISO
  string, or \<open>None\<close> for \<^verbatim>\<open>null\<close>.
\<close>

record progress =
  currentWeek :: int
  currentDay :: int
  completedDays :: "(string \<times> int) list"
  streak :: int
  lastCompletedDate :: "int option"

text \<open>
  The four keys of \<^verbatim>\<open>STORAGE_KEYS\<close> the operations below touch (the user and
  theme keys play no part in them).  A text under the entries key that parses
  is an array of entries and a text under the progress key that parses is a
  progress object, as the module writes them; the legacy record is any JSON
  value, since it comes from outside.
\<close>

record storage =
  ENTRIES :: "entry list item option"
  PROGRESS :: "progress item option"
  LEGACY_JOURNALS :: "json item option"
  LEGACY_JOURNALS_ARCHIVED :: "json item option"

text \<open>
  What an operation reads from its surroundings while it runs: the clock
  (\<^verbatim>\<open>Date.now()\<close>, one reading per call of an operation), the offset of local time
  from UTC in milliseconds at a given instant (it decides \<^verbatim>\<open>toDateString\<close>), the
  identifiers \<^verbatim>\<open>generateUUID\<close> hands out, in the order of its calls, and whether
  the browser accepts a write that leaves the store with a given content
  (\<^verbatim>\<open>setItem\<close> throws when the quota is exceeded).
\<close>

record env =
  now :: int
  zone :: "int \<Rightarrow> int"
  uuid :: "nat \<Rightarrow> string"
  quota :: "storage \<Rightarrow> bool"

section \<open>The runtime's primitives\<close>

definition JSON_parse :: "'a item \<Rightarrow> js_error + 'a" where
  "JSON_parse stored = (case stored of Raw t \<Rightarrow> Inl SyntaxError | Doc v \<Rightarrow> Inr v)"

text \<open>The truth value of \<^verbatim>\<open>localStorage.getItem(key)\<close>: \<^verbatim>\<open>null\<close> and \<^verbatim>\<open>""\<close> are falsy.\<close>

definition truthy_item :: "'a item option \<Rightarrow> bool" where
  "truthy_item stored = (case stored of None \<Rightarrow> False | Some (Raw t) \<Rightarrow> t \<noteq> [] | Some (Doc v) \<Rightarrow> True)"

definition setItem :: "env \<Rightarrow> (storage \<Rightarrow> storage) \<Rightarrow> storage \<Rightarrow> js_error + storage" where
  "setItem ev write s = (if quota ev (write s) then Inr (write s) else Inl QuotaExceededError)"

fun truthy :: "json \<Rightarrow> bool" where
  "truthy JNull = False"
| "truthy (JBool b) = b"
| "truthy (JNum n) = (n \<noteq> 0)"
| "truthy (JStr s) = (s \<noteq> [])"
| "truthy (JArr xs) = True"
| "truthy (JObj kvs) = True"

text \<open>
  \<^verbatim>\<open>value.name\<close> for the names the module reads (\<^verbatim>\<open>content\<close>, \<^verbatim>\<open>text\<close>,
  \<^verbatim>\<open>prompt\<close>, \<^verbatim>\<open>createdAt\<close>, \<^verbatim>\<open>updatedAt\<close>): a \<^verbatim>\<open>TypeError\<close> on \<^verbatim>\<open>null\<close>,
  the own property of an object, \<^verbatim>\<open>undefined\<close> (\<open>None\<close>) otherwise.
\<close>

fun get_prop :: "json \<Rightarrow> string \<Rightarrow> js_error + json option" where
  "get_prop JNull name = Inl TypeError"
| "get_prop (JObj kvs) name = Inr (map_of kvs name)"
| "get_prop v name = Inr None"

text \<open>\<^verbatim>\<open>a || b\<close> where \<open>a\<close> may be \<^verbatim>\<open>undefined\<close>.\<close>

definition or_else :: "json option \<Rightarrow> json \<Rightarrow> json" where
  "or_else a b = (case a of None \<Rightarrow> b | Some v \<Rightarrow> if truthy v then v else b)"

text \<open>\<^verbatim>\<open>typeof value === 'object'\<close>: true of \<^verbatim>\<open>null\<close>, arrays and objects.\<close>

fun typeof_object :: "json \<Rightarrow> bool" where
  "typeof_object JNull = True"
| "typeof_object (JArr xs) = True"
| "typeof_object (JObj kvs) = True"
| "typeof_object v = False"

text \<open>White space as \<^verbatim>\<open>trim\<close> and \<^verbatim>\<open>parseInt\<close> skip it, within ASCII.\<close>

definition is_space :: "char \<Rightarrow> bool" where
  "is_space c = (c \<in> set [CHR 0x09, CHR 0x0A, CHR 0x0B, CHR 0x0C, CHR 0x0D, CHR 0x20])"

definition trim :: "string \<Rightarrow> string" where
  "trim s = rev (dropWhile is_space (rev (dropWhile is_space s)))"

definition is_digit :: "char \<Rightarrow> bool" where
  "is_digit c = (48 \<le> (of_char c :: nat) \<and> (of_char c :: nat) \<le> 57)"

definition digit_value :: "char \<Rightarrow> nat" where
  "digit_value c = of_char c - 48"

text \<open>
  \<^verbatim>\<open>parseInt(s, 10)\<close>: leading white space, an optional sign, then the longest run
  of digits; \<^verbatim>\<open>NaN\<close> when there is no digit.  (Exact below \<open>2^53\<close>, where a
  JavaScript number still holds every integer.)
\<close>

definition parseInt :: "string \<Rightarrow> int option" where
  "parseInt s =
     (let t = dropWhile is_space s;
          negative = (case t of [] \<Rightarrow> False | c # r \<Rightarrow> c = CHR ''-'');
          body = (case t of [] \<Rightarrow> [] | c # r \<Rightarrow> if c = CHR ''-'' \<or> c = CHR ''+'' then r else t);
          ds = takeWhile is_digit body
      in if ds = [] then None
         else Some ((if negative then - 1 else 1) * int (foldl (\<lambda>a c. 10 * a + digit_value c) 0 ds)))"

text \<open>\<^verbatim>\<open>s.split(sep)\<close> for a one-character separator.\<close>

fun split_on :: "char \<Rightarrow> string \<Rightarrow> string list" where
  "split_on sep [] = [[]]"
| "split_on sep (c # cs) =
     (if c = sep then [] # split_on sep cs
      else (case split_on sep cs of [] \<Rightarrow> [[c]] | p # ps \<Rightarrow> (c # p) # ps))"

text \<open>A number in a template string, for integers.\<close>

fun show_nat :: "nat \<Rightarrow> string" where
  "show_nat n = (if n < 10 then [char_of (48 + n)] else show_nat (n div 10) @ [char_of (48 + n mod 10)])"

declare show_nat.simps [simp del]

definition show_int :: "int \<Rightarrow> string" where
  "show_int i = (if i < 0 then CHR ''-'' # show_nat (nat (- i)) else show_nat (nat i))"

text \<open>
  \<^verbatim>\<open>Object.entries(parsed)\<close>: a \<^verbatim>\<open>TypeError\<close> on \<^verbatim>\<open>null\<close>, the properties of an
  object, the indexed elements of an array or of a string, nothing for a number
  or a boolean.
\<close>

fun Object_entries :: "json \<Rightarrow> js_error + (string \<times> json) list" where
  "Object_entries JNull = Inl TypeError"
| "Object_entries (JObj kvs) = Inr kvs"
| "Object_entries (JArr xs) = Inr (zip (map show_nat [0..<length xs]) xs)"
| "Object_entries (JStr s) = Inr (zip (map show_nat [0..<length s]) (map (\<lambda>c. JStr [c]) s))"
| "Object_entries v = Inr []"

text \<open>
  \<^verbatim>\<open>new Date(t).toDateString()\<close> names the local calendar day of the instant
  \<open>t\<close>; the model gives the number of that day, counted from the local epoch.
\<close>

definition toDateString :: "env \<Rightarrow> int \<Rightarrow> int" where
  "toDateString ev t = (t + zone ev t) div 86400000"

section \<open>Entries\<close>

text \<open>
  \<^verbatim>\<open>createEntry(type, content, prompt, context)\<close>; \<open>n\<close> counts the calls of
  \<^verbatim>\<open>generateUUID\<close> made before this one.
\<close>

definition createEntry :: "env \<Rightarrow> nat \<Rightarrow> string \<Rightarrow> string \<Rightarrow> json \<Rightarrow> context_triple option \<Rightarrow> entry" where
  "createEntry ev n type text prompt_text context =
     \<lparr> entry_id = uuid ev n, entry_type = type, content = text, prompt = prompt_text,
       entry_context = context, createdAt = ISO (now ev), updatedAt = ISO (now ev) \<rparr>"

definition getAllEntries :: "storage \<Rightarrow> entry list" where
  "getAllEntries s =
     (let stored = ENTRIES s in
      if truthy_item stored
      then (case stored of None \<Rightarrow> []
            | Some text \<Rightarrow> (case JSON_parse text of Inl e \<Rightarrow> [] | Inr entries \<Rightarrow> entries))
      else [])"

definition getEntryById :: "string \<Rightarrow> storage \<Rightarrow> entry option" where
  "getEntryById i s = find (\<lambda>e. entry_id e = i) (getAllEntries s)"

definition matches_context :: "int \<Rightarrow> int \<Rightarrow> int \<Rightarrow> entry \<Rightarrow> bool" where
  "matches_context w d p e =
     (case entry_context e of None \<Rightarrow> False
      | Some c \<Rightarrow> week c = Some w \<and> day c = Some d \<and> promptIndex c = Some p)"

definition getEntryByContext :: "int \<Rightarrow> int \<Rightarrow> int \<Rightarrow> storage \<Rightarrow> entry option" where
  "getEntryByContext w d p s = find (matches_context w d p) (getAllEntries s)"

definition saveEntry :: "env \<Rightarrow> entry \<Rightarrow> storage \<Rightarrow> js_error + (entry \<times> storage)" where
  "saveEntry ev e s =
     (let entries = getAllEntries s @ [e] in
      case setItem ev (\<lambda>st. st\<lparr>ENTRIES := Some (Doc entries)\<rparr>) s of
        Inl err \<Rightarrow> Inl err
      | Inr s' \<Rightarrow> Inr (e, s'))"

text \<open>
  The \<^verbatim>\<open>updates\<close> object of \<^verbatim>\<open>updateEntry\<close>: the fields it sets.  The journal
  passes \<^verbatim>\<open>{ content }\<close>.
\<close>

record updates =
  set_id :: "string option"
  set_type :: "string option"
  set_content :: "string option"
  set_prompt :: "json option"
  set_context :: "context_triple option option"
  set_createdAt :: "stamp option"
  set_updatedAt :: "stamp option"

definition no_updates :: updates where
  "no_updates = \<lparr> set_id = None, set_type = None, set_content = None, set_prompt = None,
                  set_context = None, set_createdAt = None, set_updatedAt = None \<rparr>"

definition or_keep :: "'a option \<Rightarrow> 'a \<Rightarrow> 'a" where
  "or_keep new old = (case new of None \<Rightarrow> old | Some v \<Rightarrow> v)"

text \<open>\<^verbatim>\<open>{ ...entry, ...updates, updatedAt: new Date().toISOString() }\<close>\<close>

definition merge_updates :: "env \<Rightarrow> entry \<Rightarrow> updates \<Rightarrow> entry" where
  "merge_updates ev e u =
     \<lparr> entry_id = or_keep (set_id u) (entry_id e),
       entry_type = or_keep (set_type u) (entry_type e),
       content = or_keep (set_content u) (content e),
       prompt = or_keep (set_prompt u) (prompt e),
       entry_context = or_keep (set_context u) (entry_context e),
       createdAt = or_keep (set_createdAt u) (createdAt e),
       updatedAt = ISO (now ev) \<rparr>"

fun findIndex :: "('a \<Rightarrow> bool) \<Rightarrow> 'a list \<Rightarrow> nat option" where
  "findIndex P [] = None"
| "findIndex P (x # xs) = (if P x then Some 0 else map_option Suc (findIndex P xs))"

definition updateEntry :: "env \<Rightarrow> string \<Rightarrow> updates \<Rightarrow> storage \<Rightarrow> js_error + (entry option \<times> storage)" where
  "updateEntry ev i u s =
     (let entries = getAllEntries s in
      case findIndex (\<lambda>e. entry_id e = i) entries of
        None \<Rightarrow> Inr (None, s)
      | Some index \<Rightarrow>
          (let entries' = entries[index := merge_updates ev (entries ! index) u] in
           case setItem ev (\<lambda>st. st\<lparr>ENTRIES := Some (Doc entries')\<rparr>) s of
             Inl err \<Rightarrow> Inl err
           | Inr s' \<Rightarrow> Inr (Some (entries' ! index), s')))"

definition deleteEntry :: "env \<Rightarrow> string \<Rightarrow> storage \<Rightarrow> js_error + (bool \<times> storage)" where
  "deleteEntry ev i s =
     (let entries = getAllEntries s;
          filteredEntries = filter (\<lambda>e. entry_id e \<noteq> i) entries in
      if length filteredEntries = length entries then Inr (False, s)
      else (case setItem ev (\<lambda>st. st\<lparr>ENTRIES := Some (Doc filteredEntries)\<rparr>) s of
              Inl err \<Rightarrow> Inl err
            | Inr s' \<Rightarrow> Inr (True, s')))"

section \<open>Progress\<close>

definition default_progress :: progress where
  "default_progress =
     \<lparr> currentWeek = 1, currentDay = 1, completedDays = [], streak = 0, lastCompletedDate = None \<rparr>"

definition getProgress :: "storage \<Rightarrow> progress" where
  "getProgress s =
     (let stored = PROGRESS s in
      if truthy_item stored
      then (case stored of None \<Rightarrow> default_progress
            | Some text \<Rightarrow> (case JSON_parse text of Inl e \<Rightarrow> default_progress | Inr p \<Rightarrow> p))
      else default_progress)"

definition saveProgress :: "env \<Rightarrow> progress \<Rightarrow> storage \<Rightarrow> js_error + storage" where
  "saveProgress ev p s = setItem ev (\<lambda>st. st\<lparr>PROGRESS := Some (Doc p)\<rparr>) s"

text \<open>The key \<^verbatim>\<open>`${week}-${day}`\<close>.\<close>

definition day_key :: "int \<Rightarrow> int \<Rightarrow> string" where
  "day_key w d = show_int w @ CHR ''-'' # show_int d"

text \<open>\<^verbatim>\<open>object[key] = value\<close> on a property list.\<close>

fun assign :: "string \<Rightarrow> 'v \<Rightarrow> (string \<times> 'v) list \<Rightarrow> (string \<times> 'v) list" where
  "assign k v [] = [(k, v)]"
| "assign k v (p # ps) = (if fst p = k then (k, v) # ps else p # assign k v ps)"

definition update_streak :: "env \<Rightarrow> progress \<Rightarrow> progress" where
  "update_streak ev p =
     (let today = toDateString ev (now ev);
          lastDate = map_option (toDateString ev) (lastCompletedDate p) in
      if lastDate = Some today then p
      else if lastDate = Some (toDateString ev (now ev - 86400000)) then p\<lparr>streak := streak p + 1\<rparr>
      else p\<lparr>streak := 1\<rparr>)"

definition advance_cursor :: "int \<Rightarrow> int \<Rightarrow> progress \<Rightarrow> progress" where
  "advance_cursor w d p =
     (if w = currentWeek p \<and> d = currentDay p
      then (if d < 7 then p\<lparr>currentDay := d + 1\<rparr>
            else p\<lparr>currentWeek := w + 1, currentDay := 1\<rparr>)
      else p)"

text \<open>
  What \<^verbatim>\<open>markDayComplete\<close> does to the progress object in memory before it
  saves it: record the completion, update the streak, stamp
  \<^verbatim>\<open>lastCompletedDate\<close>, advance the cursor.
\<close>

definition complete_day :: "env \<Rightarrow> int \<Rightarrow> int \<Rightarrow> progress \<Rightarrow> progress" where
  "complete_day ev w d p =
     (let p1 = p\<lparr>completedDays := assign (day_key w d) (now ev) (completedDays p)\<rparr>;
          p2 = update_streak ev p1;
          p3 = p2\<lparr>lastCompletedDate := Some (now ev)\<rparr>
      in advance_cursor w d p3)"

definition markDayComplete :: "env \<Rightarrow> int \<Rightarrow> int \<Rightarrow> storage \<Rightarrow> js_error + (progress \<times> storage)" where
  "markDayComplete ev w d s =
     (let p = getProgress s; key = day_key w d in
      if map_of (completedDays p) key = None
      then (let p' = complete_day ev w d p in
            case saveProgress ev p' s of
              Inl err \<Rightarrow> Inl err
            | Inr s' \<Rightarrow> Inr (p', s'))
      else Inr (p, s))"

definition isDayComplete :: "int \<Rightarrow> int \<Rightarrow> storage \<Rightarrow> bool" where
  "isDayComplete w d s = (map_of (completedDays (getProgress s)) (day_key w d) \<noteq> None)"

section \<open>Migration of the legacy journals\<close>

definition hasLegacyData :: "storage \<Rightarrow> bool" where
  "hasLegacyData s = truthy_item (LEGACY_JOURNALS s)"

definition parseContextFromLegacyKey :: "string \<Rightarrow> context_triple option" where
  "parseContextFromLegacyKey key =
     (let parts = split_on CHR ''-'' key in
      if length parts = 3
      then Some \<lparr> week = parseInt (parts ! 0), day = parseInt (parts ! 1),
                  promptIndex = parseInt (parts ! 2) \<rparr>
      else None)"

text \<open>
  \<^verbatim>\<open>typeof value === 'string' ? value : (value.content || value.text || '')\<close>
\<close>

definition legacy_content :: "json \<Rightarrow> js_error + json" where
  "legacy_content v =
     (case v of
        JStr t \<Rightarrow> Inr (JStr t)
      | _ \<Rightarrow>
          (case get_prop v ''content'' of
             Inl err \<Rightarrow> Inl err
           | Inr c \<Rightarrow>
               (if (case c of None \<Rightarrow> False | Some x \<Rightarrow> truthy x) then Inr (or_else c (JStr []))
                else (case get_prop v ''text'' of
                        Inl err \<Rightarrow> Inl err
                      | Inr t \<Rightarrow> Inr (or_else t (JStr []))))))"

text \<open>\<^verbatim>\<open>typeof value === 'object' ? (value.prompt || '') : ''\<close>\<close>

definition legacy_prompt :: "json \<Rightarrow> js_error + json" where
  "legacy_prompt v =
     (if typeof_object v
      then (case get_prop v ''prompt'' of Inl err \<Rightarrow> Inl err | Inr q \<Rightarrow> Inr (or_else q (JStr [])))
      else Inr (JStr []))"

text \<open>\<^verbatim>\<open>content.trim()\<close>: only a string has the method.\<close>

definition trim_call :: "json \<Rightarrow> js_error + string" where
  "trim_call c = (case c of JStr t \<Rightarrow> Inr (trim t) | _ \<Rightarrow> Inl TypeError)"

definition string_of :: "json \<Rightarrow> string" where
  "string_of c = (case c of JStr t \<Rightarrow> t | _ \<Rightarrow> [])"

text \<open>
  \<^verbatim>\<open>if (typeof value === 'object' && value.createdAt) { ... }\<close>: the legacy
  timestamps replace those of \<^verbatim>\<open>createEntry\<close>.
\<close>

definition preserve_timestamps :: "json \<Rightarrow> entry \<Rightarrow> js_error + entry" where
  "preserve_timestamps v e =
     (if typeof_object v
      then (case get_prop v ''createdAt'' of
              Inl err \<Rightarrow> Inl err
            | Inr None \<Rightarrow> Inr e
            | Inr (Some c) \<Rightarrow>
                (if truthy c
                 then (case get_prop v ''updatedAt'' of
                         Inl err \<Rightarrow> Inl err
                       | Inr u \<Rightarrow> Inr (e\<lparr>createdAt := Legacy c, updatedAt := Legacy (or_else u c)\<rparr>))
                 else Inr e))
      else Inr e)"

text \<open>One turn of the loop over \<^verbatim>\<open>Object.entries(parsed)\<close>.\<close>

definition convert :: "env \<Rightarrow> entry list \<Rightarrow> string \<times> json \<Rightarrow> js_error + entry list" where
  "convert ev entries kv =
     (let key = fst kv; v = snd kv;
          context = parseContextFromLegacyKey key;
          isReflection = (context \<noteq> None) in
      case legacy_content v of
        Inl err \<Rightarrow> Inl err
      | Inr c \<Rightarrow>
          (case legacy_prompt v of
             Inl err \<Rightarrow> Inl err
           | Inr q \<Rightarrow>
               (case trim_call c of
                  Inl err \<Rightarrow> Inl err
                | Inr trimmed \<Rightarrow>
                    (if trimmed \<noteq> []
                     then (case preserve_timestamps v
                                  (createEntry ev (length entries)
                                     (if isReflection then ''reflection'' else ''free'')
                                     (string_of c) q context) of
                             Inl err \<Rightarrow> Inl err
                           | Inr e \<Rightarrow> Inr (entries @ [e]))
                     else Inr entries))))"

fun convert_all :: "env \<Rightarrow> (string \<times> json) list \<Rightarrow> entry list \<Rightarrow> js_error + entry list" where
  "convert_all ev [] entries = Inr entries"
| "convert_all ev (kv # kvs) entries =
     (case convert ev entries kv of
        Inl err \<Rightarrow> Inl err
      | Inr entries' \<Rightarrow> convert_all ev kvs entries')"

record migration_result =
  migrated :: bool
  count :: nat
  error :: "js_error option"

definition not_migrated :: migration_result where
  "not_migrated = \<lparr> migrated = False, count = 0, error = None \<rparr>"

definition migration_failed :: "js_error \<Rightarrow> migration_result" where
  "migration_failed err = \<lparr> migrated = False, count = 0, error = Some err \<rparr>"

definition migration_done :: "nat \<Rightarrow> migration_result" where
  "migration_done n = \<lparr> migrated = True, count = n, error = None \<rparr>"

definition migrateFromLegacy :: "env \<Rightarrow> storage \<Rightarrow> migration_result \<times> storage" where
  "migrateFromLegacy ev s =
     (let legacyData = LEGACY_JOURNALS s in
      if \<not> truthy_item legacyData then (not_migrated, s)
      else
        (case legacyData of
           None \<Rightarrow> (not_migrated, s)
         | Some text \<Rightarrow>
             (case JSON_parse text of
                Inl err \<Rightarrow> (migration_failed err, s)
              | Inr parsed \<Rightarrow>
                  (case Object_entries parsed of
                     Inl err \<Rightarrow> (migration_failed err, s)
                   | Inr kvs \<Rightarrow>
                       (case convert_all ev kvs [] of
                          Inl err \<Rightarrow> (migration_failed err, s)
                        | Inr entries \<Rightarrow>
                            (if length entries > 0
                             then (let existing = getAllEntries s;
                                       merged = existing @ entries in
                                   case setItem ev (\<lambda>st. st\<lparr>ENTRIES := Some (Doc merged)\<rparr>) s of
                                     Inl err \<Rightarrow> (migration_failed err, s)
                                   | Inr s1 \<Rightarrow>
                                       (case setItem ev (\<lambda>st. st\<lparr>LEGACY_JOURNALS_ARCHIVED := Some text\<rparr>) s1 of
                                          Inl err \<Rightarrow> (migration_failed err, s1)
                                        | Inr s2 \<Rightarrow>
                                            (migration_done (length entries),
                                             s2\<lparr>LEGACY_JOURNALS := None\<rparr>)))
                             else (migration_done (length entries), s)))))))"

section \<open>Sample surroundings and stores\<close>

text \<open>
  A browser in a zone without offset that accepts every write, and the store
  with nothing in it.
\<close>

definition sample_env :: env where
  "sample_env = \<lparr> now = 1000, zone = (\<lambda>t. 0), uuid = (\<lambda>n. ''id-'' @ show_nat n),
                  quota = (\<lambda>st. True) \<rparr>"

definition empty_storage :: storage where
  "empty_storage = \<lparr> ENTRIES = None, PROGRESS = None, LEGACY_JOURNALS = None,
                     LEGACY_JOURNALS_ARCHIVED = None \<rparr>"

text \<open>
  The progress of the cursor scenario: the cursor stands on the last day of week
  1, and day 6 was completed at instant 500.
\<close>

definition week_end_progress :: progress where
  "week_end_progress = \<lparr> currentWeek = 1, currentDay = 7, completedDays = [(''1-6'', 500)],
                          streak = 3, lastCompletedDate = Some 500 \<rparr>"

definition week_end_storage :: storage where
  "week_end_storage = empty_storage\<lparr>PROGRESS := Some (Doc week_end_progress)\<rparr>"

definition week_two_progress :: progress where
  "week_two_progress = \<lparr> currentWeek = 2, currentDay = 1,
                          completedDays = [(''1-6'', 500), (''1-7'', 1000)],
                          streak = 3, lastCompletedDate = Some 1000 \<rparr>"

text \<open>A legacy record with a \<^verbatim>\<open>null\<close> beside a valid reflection.\<close>

definition null_legacy_storage :: storage where
  "null_legacy_storage =
     empty_storage\<lparr>LEGACY_JOURNALS :=
       Some (Doc (JObj [(''1-2-0'', JStr ''hello''), (''note'', JNull)]))\<rparr>"

text \<open>A store whose legacy text and entries text are not JSON.\<close>

definition corrupt_storage :: storage where
  "corrupt_storage =
     empty_storage\<lparr>ENTRIES := Some (Raw ''{oops''), LEGACY_JOURNALS := Some (Raw ''{oops'')\<rparr>"

section \<open>What the migration makes of a legacy pair\<close>





text \<open>
  The legacy record of the migration scenario, with a blank reflection added, and
  the store a migration leaves.
\<close>

definition sample_pairs :: "(string \<times> json) list" where
  "sample_pairs = [(''1-2-0'', JStr ''hello''), (''note'', JStr ''world''), (''1-1-0'', JStr ''   '')]"

definition sample_legacy_storage :: storage where
  "sample_legacy_storage = empty_storage\<lparr>LEGACY_JOURNALS := Some (Doc (JObj sample_pairs))\<rparr>"

definition migrated_storage :: storage where
  "migrated_storage =
     \<lparr> ENTRIES = Some (Doc
         [\<lparr> entry_id = ''id-0'', entry_type = ''reflection'', content = ''hello'',
            prompt = JStr [],
            entry_context = Some \<lparr> week = Some 1, day = Some 2, promptIndex = Some 0 \<rparr>,
            createdAt = ISO 1000, updatedAt = ISO 1000 \<rparr>,
          \<lparr> entry_id = ''id-1'', entry_type = ''free'', content = ''world'',
            prompt = JStr [], entry_context = None,
            createdAt = ISO 1000, updatedAt = ISO 1000 \<rparr>]),
       PROGRESS = None, LEGACY_JOURNALS = None,
       LEGACY_JOURNALS_ARCHIVED = Some (Doc (JObj sample_pairs)) \<rparr>"

text \<open>A legacy record whose only entry is blank.\<close>

definition blank_legacy_storage :: storage where
  "blank_legacy_storage =
     empty_storage\<lparr>LEGACY_JOURNALS := Some (Doc (JObj [(''1-1-0'', JStr ''   '')]))\<rparr>"


section \<open>Contexts, stamps and content updates\<close>

text \<open>At most one entry per context: the contexts that are set are distinct.\<close>

definition unique_contexts :: "entry list \<Rightarrow> bool" where
  "unique_contexts es = distinct (map entry_context (filter (\<lambda>e. entry_context e \<noteq> None) es))"

text \<open>The context \<^verbatim>\<open>{ week: w, day: d, promptIndex: p }\<close> of three numbers.\<close>

definition slot :: "int \<Rightarrow> int \<Rightarrow> int \<Rightarrow> context_triple" where
  "slot w d p = \<lparr> week = Some w, day = Some d, promptIndex = Some p \<rparr>"

text \<open>
  \<^verbatim>\<open>updatedAt >= createdAt\<close> for two stamps of the clock; a legacy value has no
  instant in the model.
\<close>

fun stamp_le :: "stamp \<Rightarrow> stamp \<Rightarrow> bool" where
  "stamp_le (ISO a) (ISO b) = (a \<le> b)"
| "stamp_le a b = False"

text \<open>The updates object \<^verbatim>\<open>{ content }\<close> the journal passes.\<close>

definition content_only :: "string \<Rightarrow> updates" where
  "content_only x = no_updates\<lparr>set_content := Some x\<rparr>"

text \<open>
  Three reflections made by \<^verbatim>\<open>createEntry\<close>, the first two for the same prompt,
  and the store after the first was saved.
\<close>

definition first_reflection :: entry where
  "first_reflection = createEntry sample_env 0 ''reflection'' ''first'' (JStr ''Prompt'') (Some (slot 1 1 0))"

definition second_reflection :: entry where
  "second_reflection = createEntry sample_env 1 ''reflection'' ''second'' (JStr ''Prompt'') (Some (slot 1 1 0))"

definition third_reflection :: entry where
  "third_reflection = createEntry sample_env 2 ''reflection'' ''third'' (JStr ''Prompt'') (Some (slot 1 2 0))"

definition once_saved :: storage where
  "once_saved = empty_storage\<lparr>ENTRIES := Some (Doc [first_reflection])\<rparr>"

text \<open>
  A later reading of the clock, an entry created at that reading, and the store
  that holds it.
\<close>

definition later_env :: env where
  "later_env = sample_env\<lparr>now := 2000\<rparr>"

definition draft_entry :: entry where
  "draft_entry = createEntry later_env 0 ''free'' ''draft'' (JStr []) None"

definition draft_storage :: storage where
  "draft_storage = empty_storage\<lparr>ENTRIES := Some (Doc [draft_entry])\<rparr>"

text \<open>
  A browser in New York around the change to daylight saving time of 10 March
  2024 (at 07:00 UTC the offset goes from -5 h to -4 h).  The clock reads
  2024-03-11T04:30:00Z, which is 00:30 on Monday 11 March in local time.  The
  last completion was at 2024-03-10T16:00:00Z, noon of Sunday 10 March in local
  time, with a streak of 5.  \<open>dst_result\<close> is the progress the call for day
  \<open>(1, 2)\<close> leaves.
\<close>

definition dst_env :: env where
  "dst_env = \<lparr> now = 1710131400000,
               zone = (\<lambda>t. if t < 1710054000000 then - 18000000 else - 14400000),
               uuid = (\<lambda>n. ''id-'' @ show_nat n), quota = (\<lambda>st. True) \<rparr>"

definition dst_progress :: progress where
  "dst_progress = \<lparr> currentWeek = 1, currentDay = 2, completedDays = [(''1-1'', 1710086400000)],
                     streak = 5, lastCompletedDate = Some 1710086400000 \<rparr>"

definition dst_storage :: storage where
  "dst_storage = empty_storage\<lparr>PROGRESS := Some (Doc dst_progress)\<rparr>"

definition dst_result :: progress where
  "dst_result = \<lparr> currentWeek = 1, currentDay = 3,
                   completedDays = [(''1-1'', 1710086400000), (''1-2'', 1710131400000)],
                   streak = 1, lastCompletedDate = Some 1710131400000 \<rparr>"

section \<open>Reading the store\<close>

lemma getAllEntries_cases:
  "getAllEntries s = (case ENTRIES s of Some (Doc es) \<Rightarrow> es | _ \<Rightarrow> [])"
  by (simp add: getAllEntries_def truthy_item_def JSON_parse_def split: option.splits item.splits)

lemma getProgress_cases:
  "getProgress s = (case PROGRESS s of Some (Doc p) \<Rightarrow> p | _ \<Rightarrow> default_progress)"
  by (simp add: getProgress_def truthy_item_def JSON_parse_def split: option.splits item.splits)

lemma getProgress_saved [simp]: "getProgress (s\<lparr>PROGRESS := Some (Doc p)\<rparr>) = p"
  by (simp add: getProgress_cases)

text \<open>
  Claim C9.  When the entries document is absent or does not parse,
  \<^verbatim>\<open>getAllEntries\<close> returns the empty list; when the progress document is absent
  or does not parse, \<^verbatim>\<open>getProgress\<close> returns the default progress record.  Both
  functions return a plain value: the \<^verbatim>\<open>catch\<close> of each swallows the parse error,
  so neither has an error result.
\<close>

theorem reads_fail_soft:
  "((ENTRIES s = None \<or> (\<exists>t. ENTRIES s = Some (Raw t))) \<longrightarrow> getAllEntries s = []) \<and>
   ((PROGRESS s = None \<or> (\<exists>t. PROGRESS s = Some (Raw t))) \<longrightarrow>
      getProgress s = \<lparr> currentWeek = 1, currentDay = 1, completedDays = [], streak = 0,
                        lastCompletedDate = None \<rparr>)"
  by (auto simp: getAllEntries_cases getProgress_cases default_progress_def)

theorem reads_fail_soft_witness:
  "ENTRIES corrupt_storage = Some (Raw ''{oops'') \<and> PROGRESS corrupt_storage = None \<and>
   getAllEntries corrupt_storage = [] \<and>
   getProgress corrupt_storage =
     \<lparr> currentWeek = 1, currentDay = 1, completedDays = [], streak = 0, lastCompletedDate = None \<rparr>"
proof -
  have e: "ENTRIES corrupt_storage = Some (Raw ''{oops'')"
    and p: "PROGRESS corrupt_storage = None"
    by (simp_all add: corrupt_storage_def empty_storage_def)
  show ?thesis using reads_fail_soft [of corrupt_storage] e p by simp
qed

section \<open>Migration: failures\<close>

text \<open>
  Claim C5.  When the text under the legacy key is not JSON (and is not the
  empty string, which the guard \<^verbatim>\<open>!legacyData\<close> takes for no legacy data),
  \<^verbatim>\<open>migrateFromLegacy\<close> returns \<^verbatim>\<open>{migrated: false, count: 0, error}\<close> with the
  parse error, and the store after the call is the store before it: entries,
  legacy key and archive key are untouched.
\<close>

theorem migrate_parse_failure:
  assumes "LEGACY_JOURNALS s = Some (Raw t)" and "t \<noteq> []"
  shows "migrateFromLegacy ev s = (\<lparr> migrated = False, count = 0, error = Some SyntaxError \<rparr>, s)"
  using assms
  by (simp add: migrateFromLegacy_def truthy_item_def JSON_parse_def migration_failed_def)

theorem migrate_parse_failure_witness:
  "LEGACY_JOURNALS corrupt_storage = Some (Raw ''{oops'') \<and>
   migrateFromLegacy sample_env corrupt_storage =
     (\<lparr> migrated = False, count = 0, error = Some SyntaxError \<rparr>, corrupt_storage)"
proof -
  have h: "LEGACY_JOURNALS corrupt_storage = Some (Raw ''{oops'')"
    by (simp add: corrupt_storage_def empty_storage_def)
  have n: "''{oops'' \<noteq> []" by simp
  show ?thesis using migrate_parse_failure [OF h n, of sample_env] h by simp
qed

text \<open>The loop over the legacy pairs fails with a \<^verbatim>\<open>TypeError\<close> only.\<close>

lemma convert_error: "convert ev es kv = Inl err \<Longrightarrow> err = TypeError"
  by (cases "snd kv")
     (auto simp: convert_def legacy_content_def legacy_prompt_def trim_call_def
        preserve_timestamps_def Let_def split: sum.splits if_splits json.splits option.splits)

lemma convert_null: "convert ev es (k, JNull) = Inl TypeError"
  by (simp add: convert_def legacy_content_def)

lemma convert_all_null:
  "(k, JNull) \<in> set kvs \<Longrightarrow> convert_all ev kvs es = Inl TypeError"
proof (induction kvs arbitrary: es)
  case Nil
  then show ?case by simp
next
  case (Cons kv kvs)
  show ?case
  proof (cases "convert ev es kv")
    case (Inl err)
    then show ?thesis using convert_error [OF Inl] by simp
  next
    case (Inr es')
    then have "kv \<noteq> (k, JNull)" using convert_null [of ev es k] by auto
    then have "(k, JNull) \<in> set kvs" using Cons.prems by simp
    then show ?thesis using Cons.IH Inr by simp
  qed
qed

text \<open>
  Claim C10.  A legacy record that parses to an object with a \<^verbatim>\<open>null\<close> among
  its values makes \<^verbatim>\<open>migrateFromLegacy\<close> abort: \<^verbatim>\<open>value.content\<close> throws on
  \<^verbatim>\<open>null\<close>, the \<^verbatim>\<open>catch\<close> returns \<^verbatim>\<open>{migrated: false, count: 0, error}\<close>, none
  of the other pairs is migrated, and the store (entries and legacy key
  included) is left as it was.
\<close>

theorem migrate_null_value_aborts:
  assumes "LEGACY_JOURNALS s = Some (Doc (JObj kvs))" and "(k, JNull) \<in> set kvs"
  shows "migrateFromLegacy ev s = (\<lparr> migrated = False, count = 0, error = Some TypeError \<rparr>, s)"
  using assms convert_all_null [OF assms(2), of ev "[]"]
  by (simp add: migrateFromLegacy_def truthy_item_def JSON_parse_def migration_failed_def)

theorem migrate_null_value_aborts_witness:
  "LEGACY_JOURNALS null_legacy_storage =
     Some (Doc (JObj [(''1-2-0'', JStr ''hello''), (''note'', JNull)])) \<and>
   migrateFromLegacy sample_env null_legacy_storage =
     (\<lparr> migrated = False, count = 0, error = Some TypeError \<rparr>, null_legacy_storage) \<and>
   ENTRIES null_legacy_storage = None"
proof -
  have h: "LEGACY_JOURNALS null_legacy_storage =
             Some (Doc (JObj [(''1-2-0'', JStr ''hello''), (''note'', JNull)]))"
    by (simp add: null_legacy_storage_def empty_storage_def)
  have m: "(''note'', JNull) \<in> set [(''1-2-0'', JStr ''hello''), (''note'', JNull)]"
    by simp
  have e: "ENTRIES null_legacy_storage = None"
    by (simp add: null_legacy_storage_def empty_storage_def)
  show ?thesis using migrate_null_value_aborts [OF h m, of sample_env] h e by simp
qed

section \<open>Progress: completing a day\<close>

lemma map_of_assign: "map_of (assign k v ps) k' = (if k' = k then Some v else map_of ps k')"
  by (induction ps) auto


lemma completedDays_update_streak [simp]: "completedDays (update_streak ev p) = completedDays p"
  by (simp add: update_streak_def Let_def)

lemma completedDays_advance_cursor [simp]: "completedDays (advance_cursor w d p) = completedDays p"
  by (simp add: advance_cursor_def)

lemma streak_advance_cursor [simp]: "streak (advance_cursor w d p) = streak p"
  by (simp add: advance_cursor_def)

lemma completedDays_complete_day:
  "completedDays (complete_day ev w d p) = assign (day_key w d) (now ev) (completedDays p)"
  by (simp add: complete_day_def Let_def)


text \<open>
  A call for a day that is not completed yet changes the progress in memory and
  saves it; it returns when the browser accepts the write and throws the write
  failure otherwise.
\<close>

lemma markDayComplete_fresh:
  assumes "map_of (completedDays (getProgress s)) (day_key w d) = None"
  shows "markDayComplete ev w d s =
     (if quota ev (s\<lparr>PROGRESS := Some (Doc (complete_day ev w d (getProgress s)))\<rparr>)
      then Inr (complete_day ev w d (getProgress s),
                s\<lparr>PROGRESS := Some (Doc (complete_day ev w d (getProgress s)))\<rparr>)
      else Inl QuotaExceededError)"
  using assms by (simp add: markDayComplete_def saveProgress_def setItem_def Let_def)

lemma markDayComplete_done:
  assumes "map_of (completedDays (getProgress s)) (day_key w d) \<noteq> None"
  shows "markDayComplete ev w d s = Inr (getProgress s, s)"
  using assms by (auto simp: markDayComplete_def Let_def)

lemma markDayComplete_marks:
  assumes "markDayComplete ev w d s = Inr (p, s')"
  shows "getProgress s' = p \<and> map_of (completedDays p) (day_key w d) \<noteq> None"
proof (cases "map_of (completedDays (getProgress s)) (day_key w d) = None")
  case True
  with assms show ?thesis
    by (auto simp: markDayComplete_fresh completedDays_complete_day map_of_assign split: if_splits)
next
  case False
  with assms show ?thesis by (auto simp: markDayComplete_done)
qed

lemma week_end_call:
  "markDayComplete sample_env 1 7 week_end_storage =
     Inr (week_two_progress, empty_storage\<lparr>PROGRESS := Some (Doc week_two_progress)\<rparr>)"
  by code_simp

text \<open>
  Claim C8.  When \<^verbatim>\<open>completedDays\<close> already holds the key of \<open>(week, day)\<close>,
  \<^verbatim>\<open>markDayComplete\<close> returns the stored progress and the store is the one
  before the call (nothing is written), whatever the clock and the quota.  Hence
  the operation is idempotent: after a call that returned, a second call for the
  same day returns the same progress and leaves the store as the first left it.
\<close>

theorem markDayComplete_noop:
  "(map_of (completedDays (getProgress s)) (day_key w d) \<noteq> None \<longrightarrow>
      markDayComplete ev w d s = Inr (getProgress s, s)) \<and>
   (markDayComplete ev w d s = Inr (p, s') \<longrightarrow> markDayComplete ev' w d s' = Inr (p, s'))"
proof (intro conjI impI)
  assume "map_of (completedDays (getProgress s)) (day_key w d) \<noteq> None"
  then show "markDayComplete ev w d s = Inr (getProgress s, s)"
    by (rule markDayComplete_done)
next
  assume "markDayComplete ev w d s = Inr (p, s')"
  then have "getProgress s' = p" and "map_of (completedDays (getProgress s')) (day_key w d) \<noteq> None"
    using markDayComplete_marks by blast+
  then show "markDayComplete ev' w d s' = Inr (p, s')"
    using markDayComplete_done [of s' w d ev'] by simp
qed

theorem markDayComplete_noop_witness:
  "map_of (completedDays (getProgress week_end_storage)) (day_key 1 6) \<noteq> None \<and>
   markDayComplete sample_env 1 6 week_end_storage = Inr (week_end_progress, week_end_storage) \<and>
   markDayComplete sample_env 1 7 week_end_storage =
     Inr (week_two_progress, empty_storage\<lparr>PROGRESS := Some (Doc week_two_progress)\<rparr>) \<and>
   markDayComplete sample_env 1 7 (empty_storage\<lparr>PROGRESS := Some (Doc week_two_progress)\<rparr>) =
     Inr (week_two_progress, empty_storage\<lparr>PROGRESS := Some (Doc week_two_progress)\<rparr>)"
proof -
  have k: "map_of (completedDays (getProgress week_end_storage)) (day_key 1 6) \<noteq> None"
    by code_simp
  have g: "getProgress week_end_storage = week_end_progress"
    by (simp add: week_end_storage_def)
  show ?thesis
    using markDayComplete_noop [of week_end_storage 1 6 sample_env week_end_progress
        week_end_storage sample_env]
      markDayComplete_noop [of week_end_storage 1 7 sample_env week_two_progress
        "empty_storage\<lparr>PROGRESS := Some (Doc week_two_progress)\<rparr>" sample_env]
      k g week_end_call
    by simp
qed



section \<open>Migration: what is migrated\<close>




lemma migrated_simps [simp]:
  "\<not> migrated not_migrated" "\<not> migrated (migration_failed err)" "migrated (migration_done n)"
  "count (migration_done n) = n"
  by (simp_all add: not_migrated_def migration_failed_def migration_done_def)

lemma migrate_converted:
  assumes "LEGACY_JOURNALS s = Some (Doc v)" and "Object_entries v = Inr kvs"
    and "convert_all ev kvs [] = Inr es"
  shows "migrateFromLegacy ev s =
     (if es = [] then (migration_done 0, s)
      else if \<not> quota ev (s\<lparr>ENTRIES := Some (Doc (getAllEntries s @ es))\<rparr>)
      then (migration_failed QuotaExceededError, s)
      else if \<not> quota ev (s\<lparr>ENTRIES := Some (Doc (getAllEntries s @ es)),
                              LEGACY_JOURNALS_ARCHIVED := Some (Doc v)\<rparr>)
      then (migration_failed QuotaExceededError, s\<lparr>ENTRIES := Some (Doc (getAllEntries s @ es))\<rparr>)
      else (migration_done (length es),
            s\<lparr>ENTRIES := Some (Doc (getAllEntries s @ es)),
              LEGACY_JOURNALS_ARCHIVED := Some (Doc v), LEGACY_JOURNALS := None\<rparr>))"
  using assms
  by (simp add: migrateFromLegacy_def Let_def truthy_item_def JSON_parse_def setItem_def)

lemma migrate_migrated:
  assumes "migrateFromLegacy ev s = (r, s')" and "migrated r"
  shows "\<exists>v kvs es. LEGACY_JOURNALS s = Some (Doc v) \<and> Object_entries v = Inr kvs \<and>
           convert_all ev kvs [] = Inr es \<and> r = migration_done (length es) \<and>
           s' = (if es = [] then s
                 else s\<lparr>ENTRIES := Some (Doc (getAllEntries s @ es)),
                        LEGACY_JOURNALS_ARCHIVED := Some (Doc v),
                        LEGACY_JOURNALS := None\<rparr>)"
proof -
  have t: "truthy_item (LEGACY_JOURNALS s)"
    using assms by (auto simp: migrateFromLegacy_def Let_def split: if_splits)
  then obtain stored where stored: "LEGACY_JOURNALS s = Some stored"
    by (cases "LEGACY_JOURNALS s") (auto simp: truthy_item_def)
  obtain v where v: "stored = Doc v"
    using assms t stored
    by (cases stored) (auto simp: migrateFromLegacy_def Let_def JSON_parse_def)
  obtain kvs where kvs: "Object_entries v = Inr kvs"
    using assms t stored v
    by (cases "Object_entries v") (auto simp: migrateFromLegacy_def Let_def JSON_parse_def)
  obtain es where es: "convert_all ev kvs [] = Inr es"
    using assms t stored v kvs
    by (cases "convert_all ev kvs []") (auto simp: migrateFromLegacy_def Let_def JSON_parse_def)
  have l: "LEGACY_JOURNALS s = Some (Doc v)" using stored v by simp
  have "r = migration_done (length es) \<and>
        s' = (if es = [] then s
              else s\<lparr>ENTRIES := Some (Doc (getAllEntries s @ es)),
                     LEGACY_JOURNALS_ARCHIVED := Some (Doc v),
                     LEGACY_JOURNALS := None\<rparr>)"
    using assms migrate_converted [OF l kvs es] by (auto split: if_splits)
  then show ?thesis using l kvs es by blast
qed

lemma migrate_no_legacy:
  "LEGACY_JOURNALS s = None \<Longrightarrow> migrateFromLegacy ev s = (not_migrated, s)"
  by (simp add: migrateFromLegacy_def truthy_item_def)

lemma sample_migration:
  "migrateFromLegacy sample_env sample_legacy_storage =
     (\<lparr> migrated = True, count = 2, error = None \<rparr>, migrated_storage)"
  by code_simp

text \<open>
  Claim C1, amended.  When a call of \<^verbatim>\<open>migrateFromLegacy\<close> returns
  \<^verbatim>\<open>{migrated: true, count}\<close> with \<open>count > 0\<close> (the legacy record parsed and at
  least one entry was migrated), the legacy record is archived under the archive
  key as it was, the legacy key is removed, the entries grew by \<open>count\<close>, and a
  second call returns \<^verbatim>\<open>{migrated: false, count: 0}\<close> and leaves the store as it
  is.
\<close>

theorem migrate_once:
  assumes "migrateFromLegacy ev s = (r, s')" and "migrated r" and "0 < count r"
  shows "(\<exists>v. LEGACY_JOURNALS s = Some (Doc v)) \<and>
         LEGACY_JOURNALS_ARCHIVED s' = LEGACY_JOURNALS s \<and>
         LEGACY_JOURNALS s' = None \<and>
         length (getAllEntries s') = length (getAllEntries s) + count r \<and>
         migrateFromLegacy ev' s' = (\<lparr> migrated = False, count = 0, error = None \<rparr>, s')"
proof -
  obtain v es where l: "LEGACY_JOURNALS s = Some (Doc v)"
    and r: "r = migration_done (length es)"
    and s': "s' = (if es = [] then s
                   else s\<lparr>ENTRIES := Some (Doc (getAllEntries s @ es)),
                          LEGACY_JOURNALS_ARCHIVED := Some (Doc v),
                          LEGACY_JOURNALS := None\<rparr>)"
    using migrate_migrated [OF assms(1,2)] by blast
  have ne: "es \<noteq> []" using assms(3) r by auto
  have gone: "LEGACY_JOURNALS s' = None" using s' ne by simp
  have "migrateFromLegacy ev' s' = (\<lparr> migrated = False, count = 0, error = None \<rparr>, s')"
    using migrate_no_legacy [OF gone] by (simp add: not_migrated_def)
  moreover have "length (getAllEntries s') = length (getAllEntries s) + count r"
    using s' ne r by (simp add: getAllEntries_cases)
  ultimately show ?thesis using l s' ne gone by simp
qed

theorem migrate_once_witness:
  "migrateFromLegacy sample_env sample_legacy_storage =
     (\<lparr> migrated = True, count = 2, error = None \<rparr>, migrated_storage) \<and>
   LEGACY_JOURNALS_ARCHIVED migrated_storage = LEGACY_JOURNALS sample_legacy_storage \<and>
   LEGACY_JOURNALS migrated_storage = None \<and>
   migrateFromLegacy sample_env migrated_storage =
     (\<lparr> migrated = False, count = 0, error = None \<rparr>, migrated_storage)"
proof -
  have m: "migrated \<lparr> migrated = True, count = 2, error = None \<rparr>" by simp
  have c: "0 < count \<lparr> migrated = True, count = 2, error = None \<rparr>" by simp
  show ?thesis
    using migrate_once [OF sample_migration m c, of sample_env] sample_migration by simp
qed

text \<open>
  Claim C1 as stated fails: a legacy record that parses but holds no entry with
  content is neither archived nor removed (the guard
  \<^verbatim>\<open>entries.length > 0\<close>), and the second call returns
  \<^verbatim>\<open>{migrated: true, count: 0}\<close> like the first.
\<close>

theorem migrate_blank_legacy_stays:
  "migrateFromLegacy sample_env blank_legacy_storage =
     (\<lparr> migrated = True, count = 0, error = None \<rparr>, blank_legacy_storage) \<and>
   LEGACY_JOURNALS blank_legacy_storage = Some (Doc (JObj [(''1-1-0'', JStr ''   '')])) \<and>
   LEGACY_JOURNALS_ARCHIVED blank_legacy_storage = None \<and>
   fst (migrateFromLegacy sample_env (snd (migrateFromLegacy sample_env blank_legacy_storage))) =
     \<lparr> migrated = True, count = 0, error = None \<rparr>"
  by code_simp




section \<open>Entries: lookup by context and update\<close>

lemma getAllEntries_saved [simp]: "getAllEntries (s\<lparr>ENTRIES := Some (Doc es)\<rparr>) = es"
  by (simp add: getAllEntries_cases)

lemma matches_context_iff: "matches_context w d p e \<longleftrightarrow> entry_context e = Some (slot w d p)"
  by (cases "entry_context e") (auto simp: matches_context_def slot_def)

lemma find_None_iff2: "find P xs = None \<longleftrightarrow> (\<forall>x \<in> set xs. \<not> P x)"
  by (induction xs) auto

lemma find_Some_D: "find P xs = Some x \<Longrightarrow> x \<in> set xs \<and> P x"
  by (induction xs) (auto split: if_splits)

lemma unique_contexts_Nil [simp]: "unique_contexts []"
  by (simp add: unique_contexts_def)

lemma unique_contexts_Cons [simp]:
  "unique_contexts (e # es) \<longleftrightarrow>
     (entry_context e = None \<or> entry_context e \<notin> entry_context ` set es) \<and> unique_contexts es"
  by (auto simp: unique_contexts_def)

lemma unique_contexts_same:
  "unique_contexts es \<Longrightarrow> e \<in> set es \<Longrightarrow> e' \<in> set es \<Longrightarrow>
     entry_context e = Some c \<Longrightarrow> entry_context e' = Some c \<Longrightarrow> e' = e"
proof (induction es)
  case Nil
  then show ?case by simp
next
  case (Cons x es)
  then show ?case by (auto simp: image_iff)
qed

lemma unique_contexts_append:
  "unique_contexts (es @ [e]) \<longleftrightarrow>
     unique_contexts es \<and> (entry_context e = None \<or> entry_context e \<notin> entry_context ` set es)"
  by (induction es) auto

lemma unique_contexts_filter: "unique_contexts es \<Longrightarrow> unique_contexts (filter P es)"
  by (induction es) auto

lemma unique_contexts_update:
  "unique_contexts es \<Longrightarrow> entry_context e' = entry_context (es ! k) \<Longrightarrow>
     unique_contexts (es[k := e'])"
proof (induction es arbitrary: k)
  case Nil
  then show ?case by simp
next
  case (Cons x es)
  show ?case
  proof (cases k)
    case 0
    then show ?thesis using Cons.prems by simp
  next
    case (Suc j)
    have "entry_context ` set (es[j := e']) \<subseteq> entry_context ` set es"
    proof (cases "j < length es")
      case True
      have "set (es[j := e']) \<subseteq> insert e' (set es)" by (rule set_update_subset_insert)
      moreover have "entry_context e' \<in> entry_context ` set es"
        using Cons.prems(2) Suc True by (simp add: image_iff) (metis nth_mem)
      ultimately show ?thesis by auto
    next
      case False
      then have "es[j := e'] = es" by (simp add: list_update_beyond)
      then show ?thesis by simp
    qed
    then show ?thesis using Cons.prems Cons.IH [of j] Suc by auto
  qed
qed

lemma findIndex_None: "findIndex P xs = None \<longleftrightarrow> find P xs = None"
  by (induction xs) auto

lemma findIndex_Some:
  "findIndex P xs = Some k \<Longrightarrow> k < length xs \<and> find P xs = Some (xs ! k)"
  by (induction xs arbitrary: k) (auto split: if_splits)

lemma find_findIndex: "find P xs = Some x \<Longrightarrow> \<exists>k. findIndex P xs = Some k \<and> xs ! k = x \<and> k < length xs"
  by (induction xs) (auto split: if_splits)

lemma saveEntry_result:
  "saveEntry ev n s = Inr (r, s') \<Longrightarrow> r = n \<and> s' = s\<lparr>ENTRIES := Some (Doc (getAllEntries s @ [n]))\<rparr>"
  by (auto simp: saveEntry_def setItem_def Let_def split: if_splits)

lemma updateEntry_unknown:
  "findIndex (\<lambda>e. entry_id e = i) (getAllEntries s) = None \<Longrightarrow> updateEntry ev i u s = Inr (None, s)"
  by (simp add: updateEntry_def Let_def)

lemma updateEntry_known:
  assumes "findIndex (\<lambda>e. entry_id e = i) (getAllEntries s) = Some k"
    and "updateEntry ev i u s = Inr (r, s')"
  shows "r = Some (merge_updates ev (getAllEntries s ! k) u) \<and>
         s' = s\<lparr>ENTRIES := Some (Doc ((getAllEntries s)[k := merge_updates ev (getAllEntries s ! k) u]))\<rparr>"
proof -
  have "k < length (getAllEntries s)" using findIndex_Some [OF assms(1)] by simp
  then show ?thesis using assms
    by (auto simp: updateEntry_def setItem_def Let_def split: if_splits)
qed

lemma deleteEntry_result:
  "deleteEntry ev i s = Inr (r, s') \<Longrightarrow>
     getAllEntries s' = filter (\<lambda>e. entry_id e \<noteq> i) (getAllEntries s)"
proof (cases "length (filter (\<lambda>e. entry_id e \<noteq> i) (getAllEntries s)) = length (getAllEntries s)")
  case True
  assume "deleteEntry ev i s = Inr (r, s')"
  then have "s' = s" using True by (simp add: deleteEntry_def Let_def)
  moreover have "filter (\<lambda>e. entry_id e \<noteq> i) (getAllEntries s) = getAllEntries s"
    using True by (metis filter_True length_filter_less linorder_neq_iff)
  ultimately show ?thesis by simp
next
  case False
  assume "deleteEntry ev i s = Inr (r, s')"
  then show ?thesis using False
    by (auto simp: deleteEntry_def setItem_def Let_def split: if_splits)
qed

lemma merge_content_only:
  "merge_updates ev e (content_only x) = e\<lparr>content := x, updatedAt := ISO (now ev)\<rparr>"
  by (simp add: merge_updates_def content_only_def no_updates_def or_keep_def)

lemma merge_keeps_context: "set_context u = None \<Longrightarrow> entry_context (merge_updates ev e u) = entry_context e"
  by (simp add: merge_updates_def or_keep_def)

text \<open>
  Claim C6, amended.  \<^verbatim>\<open>saveEntry\<close> appends without looking at the context, so
  the store does not keep the contexts unique by itself.  What holds:
  \<^verbatim>\<open>getEntryByContext(w, d, p)\<close> returns the first entry, in insertion order, that
  carries the triple, and \<^verbatim>\<open>null\<close> exactly when no entry carries it; when the
  collection has at most one entry per context, the entry returned is the only
  one with the triple.  That uniqueness is kept by a save of an entry without
  context, by a save of a reflection for whose triple \<^verbatim>\<open>getEntryByContext\<close>
  returned \<^verbatim>\<open>null\<close> (the journal editor saves only then), by an update that does
  not set the context, and by a delete.
\<close>

theorem context_lookup:
  "(getEntryByContext w d p s = None \<longleftrightarrow>
      (\<forall>e \<in> set (getAllEntries s). entry_context e \<noteq> Some (slot w d p))) \<and>
   (getEntryByContext w d p s = Some e \<longrightarrow>
      (\<exists>k < length (getAllEntries s). getAllEntries s ! k = e \<and>
         (\<forall>j < k. entry_context (getAllEntries s ! j) \<noteq> Some (slot w d p))) \<and>
      entry_context e = Some (slot w d p) \<and>
      (unique_contexts (getAllEntries s) \<longrightarrow>
         (\<forall>e' \<in> set (getAllEntries s). entry_context e' = Some (slot w d p) \<longrightarrow> e' = e))) \<and>
   (unique_contexts (getAllEntries s) \<and>
      (entry_context n = None \<or>
         (entry_context n = Some (slot w d p) \<and> getEntryByContext w d p s = None)) \<and>
      saveEntry ev n s = Inr (r1, s1) \<longrightarrow> unique_contexts (getAllEntries s1)) \<and>
   (unique_contexts (getAllEntries s) \<and> set_context u = None \<and>
      updateEntry ev i u s = Inr (r2, s2) \<longrightarrow> unique_contexts (getAllEntries s2)) \<and>
   (unique_contexts (getAllEntries s) \<and> deleteEntry ev i s = Inr (r3, s3) \<longrightarrow>
      unique_contexts (getAllEntries s3))"
proof (intro conjI impI)
  show "getEntryByContext w d p s = None \<longleftrightarrow>
      (\<forall>e \<in> set (getAllEntries s). entry_context e \<noteq> Some (slot w d p))"
    by (simp add: getEntryByContext_def find_None_iff2 matches_context_iff)
next
  assume f: "getEntryByContext w d p s = Some e"
  then show "\<exists>k < length (getAllEntries s). getAllEntries s ! k = e \<and>
         (\<forall>j < k. entry_context (getAllEntries s ! j) \<noteq> Some (slot w d p))"
    by (auto simp: getEntryByContext_def find_Some_iff matches_context_iff)
  from f show c: "entry_context e = Some (slot w d p)"
    using find_Some_D [of "matches_context w d p" "getAllEntries s" e]
    by (simp add: getEntryByContext_def matches_context_iff)
  assume u: "unique_contexts (getAllEntries s)"
  have m: "e \<in> set (getAllEntries s)"
    using f find_Some_D [of "matches_context w d p" "getAllEntries s" e]
    by (simp add: getEntryByContext_def)
  show "\<forall>e' \<in> set (getAllEntries s). entry_context e' = Some (slot w d p) \<longrightarrow> e' = e"
    using unique_contexts_same [OF u m _ c] by blast
next
  assume a: "unique_contexts (getAllEntries s) \<and>
      (entry_context n = None \<or>
         (entry_context n = Some (slot w d p) \<and> getEntryByContext w d p s = None)) \<and>
      saveEntry ev n s = Inr (r1, s1)"
  then have "getAllEntries s1 = getAllEntries s @ [n]"
    using saveEntry_result [of ev n s r1 s1] by simp
  moreover have "entry_context n = None \<or> entry_context n \<notin> entry_context ` set (getAllEntries s)"
    using a by (auto simp: getEntryByContext_def find_None_iff2 matches_context_iff)
  ultimately show "unique_contexts (getAllEntries s1)"
    using a by (simp add: unique_contexts_append)
next
  assume a: "unique_contexts (getAllEntries s) \<and> set_context u = None \<and>
      updateEntry ev i u s = Inr (r2, s2)"
  show "unique_contexts (getAllEntries s2)"
  proof (cases "findIndex (\<lambda>e. entry_id e = i) (getAllEntries s)")
    case None
    then have "s2 = s" using a updateEntry_unknown [OF None, of ev u] by simp
    then show ?thesis using a by simp
  next
    case (Some k)
    then have "getAllEntries s2 = (getAllEntries s)[k := merge_updates ev (getAllEntries s ! k) u]"
      using a updateEntry_known [OF Some, of ev u r2 s2] by simp
    then show ?thesis using a by (simp add: unique_contexts_update merge_keeps_context)
  qed
next
  assume "unique_contexts (getAllEntries s) \<and> deleteEntry ev i s = Inr (r3, s3)"
  then show "unique_contexts (getAllEntries s3)"
    using deleteEntry_result [of ev i s r3 s3] by (simp add: unique_contexts_filter)
qed

theorem context_lookup_witness:
  "getEntryByContext 1 1 0 once_saved = Some first_reflection \<and>
   unique_contexts (getAllEntries once_saved) \<and>
   entry_context first_reflection = Some (slot 1 1 0) \<and>
   getEntryByContext 1 2 0 once_saved = None \<and>
   entry_context third_reflection = Some (slot 1 2 0) \<and>
   saveEntry sample_env third_reflection once_saved =
     Inr (third_reflection, empty_storage\<lparr>ENTRIES := Some (Doc [first_reflection, third_reflection])\<rparr>) \<and>
   unique_contexts [first_reflection, third_reflection] \<and>
   set_context (content_only ''revised'') = None \<and>
   updateEntry later_env ''id-0'' (content_only ''revised'') once_saved =
     Inr (Some (first_reflection\<lparr>content := ''revised'', updatedAt := ISO 2000\<rparr>),
          empty_storage\<lparr>ENTRIES :=
            Some (Doc [first_reflection\<lparr>content := ''revised'', updatedAt := ISO 2000\<rparr>])\<rparr>) \<and>
   unique_contexts [first_reflection\<lparr>content := ''revised'', updatedAt := ISO 2000\<rparr>] \<and>
   deleteEntry sample_env ''id-0'' once_saved =
     Inr (True, empty_storage\<lparr>ENTRIES := Some (Doc [])\<rparr>) \<and>
   unique_contexts (getAllEntries (empty_storage\<lparr>ENTRIES := Some (Doc [])\<rparr>))"
proof -
  have f: "getEntryByContext 1 1 0 once_saved = Some first_reflection" by code_simp
  have u: "unique_contexts (getAllEntries once_saved)" by code_simp
  have n: "getEntryByContext 1 2 0 once_saved = None" by code_simp
  have c: "entry_context third_reflection = Some (slot 1 2 0)" by code_simp
  have s: "saveEntry sample_env third_reflection once_saved =
     Inr (third_reflection, empty_storage\<lparr>ENTRIES := Some (Doc [first_reflection, third_reflection])\<rparr>)"
    by code_simp
  have k: "set_context (content_only ''revised'') = None" by code_simp
  have v: "updateEntry later_env ''id-0'' (content_only ''revised'') once_saved =
     Inr (Some (first_reflection\<lparr>content := ''revised'', updatedAt := ISO 2000\<rparr>),
          empty_storage\<lparr>ENTRIES :=
            Some (Doc [first_reflection\<lparr>content := ''revised'', updatedAt := ISO 2000\<rparr>])\<rparr>)"
    by code_simp
  have d: "deleteEntry sample_env ''id-0'' once_saved =
     Inr (True, empty_storage\<lparr>ENTRIES := Some (Doc [])\<rparr>)"
    by code_simp
  show ?thesis
    using context_lookup [where w = 1 and d = 1 and p = 0 and s = once_saved
        and e = first_reflection]
      context_lookup [where w = 1 and d = 2 and p = 0 and s = once_saved
        and n = third_reflection and ev = sample_env and ?r1.0 = third_reflection
        and ?s1.0 = "empty_storage\<lparr>ENTRIES := Some (Doc [first_reflection, third_reflection])\<rparr>"]
      context_lookup [where s = once_saved and u = "content_only ''revised''" and ev = later_env
        and i = "''id-0''"
        and ?r2.0 = "Some (first_reflection\<lparr>content := ''revised'', updatedAt := ISO 2000\<rparr>)"
        and ?s2.0 = "empty_storage\<lparr>ENTRIES :=
            Some (Doc [first_reflection\<lparr>content := ''revised'', updatedAt := ISO 2000\<rparr>])\<rparr>"]
      context_lookup [where s = once_saved and ev = sample_env and i = "''id-0''"
        and ?r3.0 = True and ?s3.0 = "empty_storage\<lparr>ENTRIES := Some (Doc [])\<rparr>"]
      f u n c s k v d
    by simp
qed

text \<open>
  Claim C6 as stated fails: two saves of reflections for the same prompt, both
  made by \<^verbatim>\<open>createEntry\<close>, leave two entries with one context.
\<close>

theorem save_twice_duplicates_context:
  "saveEntry sample_env first_reflection empty_storage =
     Inr (first_reflection, empty_storage\<lparr>ENTRIES := Some (Doc [first_reflection])\<rparr>) \<and>
   saveEntry sample_env second_reflection (empty_storage\<lparr>ENTRIES := Some (Doc [first_reflection])\<rparr>) =
     Inr (second_reflection,
          empty_storage\<lparr>ENTRIES := Some (Doc [first_reflection, second_reflection])\<rparr>) \<and>
   entry_context first_reflection = Some (slot 1 1 0) \<and>
   entry_context second_reflection = Some (slot 1 1 0) \<and>
   first_reflection \<noteq> second_reflection \<and>
   \<not> unique_contexts [first_reflection, second_reflection]"
  by code_simp

text \<open>
  Claim C7, amended.  For an id that no entry has, \<^verbatim>\<open>updateEntry\<close> returns
  \<^verbatim>\<open>null\<close> and the store is unchanged; no error is raised.  For the (first) entry
  with the id, a call with \<^verbatim>\<open>{ content: x }\<close> that returns puts in its place the
  entry with the new content and with \<open>updatedAt\<close> set to the reading of the
  clock; id, type, context, prompt and \<open>createdAt\<close> are those of the old entry.
  \<open>updatedAt >= createdAt\<close> holds when \<open>createdAt\<close> is a stamp not later than
  that reading of the clock.
\<close>

theorem update_content:
  "(getEntryById i s = None \<longrightarrow> updateEntry ev i u s = Inr (None, s)) \<and>
   (getEntryById i s = Some old \<and> updateEntry ev i (content_only x) s = Inr (r, s') \<longrightarrow>
      (\<exists>e' k. r = Some e' \<and> e' = old\<lparr>content := x, updatedAt := ISO (now ev)\<rparr> \<and>
         findIndex (\<lambda>e. entry_id e = i) (getAllEntries s) = Some k \<and>
         getAllEntries s ! k = old \<and>
         getAllEntries s' = (getAllEntries s)[k := e'] \<and>
         content e' = x \<and> updatedAt e' = ISO (now ev) \<and>
         entry_id e' = entry_id old \<and> entry_type e' = entry_type old \<and>
         entry_context e' = entry_context old \<and> createdAt e' = createdAt old \<and>
         prompt e' = prompt old \<and>
         (\<forall>c. createdAt old = ISO c \<and> c \<le> now ev \<longrightarrow> stamp_le (createdAt e') (updatedAt e'))))"
proof (intro conjI impI)
  assume "getEntryById i s = None"
  then show "updateEntry ev i u s = Inr (None, s)"
    by (simp add: getEntryById_def updateEntry_unknown findIndex_None)
next
  assume a: "getEntryById i s = Some old \<and> updateEntry ev i (content_only x) s = Inr (r, s')"
  then obtain k where k: "findIndex (\<lambda>e. entry_id e = i) (getAllEntries s) = Some k"
    and o: "getAllEntries s ! k = old"
    using find_findIndex [of "\<lambda>e. entry_id e = i" "getAllEntries s" old]
    by (auto simp: getEntryById_def)
  let ?e = "old\<lparr>content := x, updatedAt := ISO (now ev)\<rparr>"
  have "r = Some ?e" and "getAllEntries s' = (getAllEntries s)[k := ?e]"
    using a updateEntry_known [OF k, of ev "content_only x" r s'] o
    by (simp_all add: merge_content_only)
  then show "\<exists>e' k. r = Some e' \<and> e' = old\<lparr>content := x, updatedAt := ISO (now ev)\<rparr> \<and>
         findIndex (\<lambda>e. entry_id e = i) (getAllEntries s) = Some k \<and>
         getAllEntries s ! k = old \<and>
         getAllEntries s' = (getAllEntries s)[k := e'] \<and>
         content e' = x \<and> updatedAt e' = ISO (now ev) \<and>
         entry_id e' = entry_id old \<and> entry_type e' = entry_type old \<and>
         entry_context e' = entry_context old \<and> createdAt e' = createdAt old \<and>
         prompt e' = prompt old \<and>
         (\<forall>c. createdAt old = ISO c \<and> c \<le> now ev \<longrightarrow> stamp_le (createdAt e') (updatedAt e'))"
    using k o by (intro exI [of _ ?e] exI [of _ k]) auto
qed

theorem update_content_witness:
  "getEntryById ''id-0'' once_saved = Some first_reflection \<and>
   updateEntry later_env ''id-0'' (content_only ''revised'') once_saved =
     Inr (Some (first_reflection\<lparr>content := ''revised'', updatedAt := ISO 2000\<rparr>),
          empty_storage\<lparr>ENTRIES :=
            Some (Doc [first_reflection\<lparr>content := ''revised'', updatedAt := ISO 2000\<rparr>])\<rparr>) \<and>
   createdAt first_reflection = ISO 1000 \<and> 1000 \<le> now later_env \<and>
   stamp_le (createdAt (first_reflection\<lparr>content := ''revised'', updatedAt := ISO 2000\<rparr>))
     (updatedAt (first_reflection\<lparr>content := ''revised'', updatedAt := ISO 2000\<rparr>)) \<and>
   getEntryById ''id-9'' once_saved = None \<and>
   updateEntry later_env ''id-9'' (content_only ''revised'') once_saved = Inr (None, once_saved)"
proof -
  have g: "getEntryById ''id-0'' once_saved = Some first_reflection" by code_simp
  have u: "updateEntry later_env ''id-0'' (content_only ''revised'') once_saved =
     Inr (Some (first_reflection\<lparr>content := ''revised'', updatedAt := ISO 2000\<rparr>),
          empty_storage\<lparr>ENTRIES :=
            Some (Doc [first_reflection\<lparr>content := ''revised'', updatedAt := ISO 2000\<rparr>])\<rparr>)"
    by code_simp
  have c: "createdAt first_reflection = ISO 1000" by code_simp
  have l: "1000 \<le> now later_env" by code_simp
  have n: "getEntryById ''id-9'' once_saved = None" by code_simp
  show ?thesis
    using update_content [of "''id-0''" once_saved later_env _ first_reflection "''revised''"
        "Some (first_reflection\<lparr>content := ''revised'', updatedAt := ISO 2000\<rparr>)"
        "empty_storage\<lparr>ENTRIES :=
            Some (Doc [first_reflection\<lparr>content := ''revised'', updatedAt := ISO 2000\<rparr>])\<rparr>"]
      update_content [of "''id-9''" once_saved later_env "content_only ''revised''"]
      g u c l n
    by simp
qed

text \<open>
  Claim C7 as stated fails: \<^verbatim>\<open>updateEntry\<close> stamps the clock without comparing
  it with \<open>createdAt\<close>.  An entry saved when the clock read 2000 and updated
  when it reads 1000 ends with \<open>updatedAt\<close> before \<open>createdAt\<close>.
\<close>

theorem update_before_creation_stamp:
  "saveEntry later_env draft_entry empty_storage = Inr (draft_entry, draft_storage) \<and>
   updateEntry sample_env ''id-0'' (content_only ''final'') draft_storage =
     Inr (Some (draft_entry\<lparr>content := ''final'', updatedAt := ISO 1000\<rparr>),
          empty_storage\<lparr>ENTRIES :=
            Some (Doc [draft_entry\<lparr>content := ''final'', updatedAt := ISO 1000\<rparr>])\<rparr>) \<and>
   createdAt (draft_entry\<lparr>content := ''final'', updatedAt := ISO 1000\<rparr>) = ISO 2000 \<and>
   \<not> stamp_le (createdAt (draft_entry\<lparr>content := ''final'', updatedAt := ISO 1000\<rparr>))
        (updatedAt (draft_entry\<lparr>content := ''final'', updatedAt := ISO 1000\<rparr>))"
  by code_simp

section \<open>Progress: the streak\<close>

text \<open>
  Where the offset of local time is the same now and 24 hours ago, the date of
  the instant 24 hours ago is yesterday's, and the streak follows the rule:
  unchanged for a last completion today, one more for yesterday, 1 otherwise.
\<close>

lemma yesterday_fixed_offset:
  "zone ev (now ev - 86400000) = zone ev (now ev) \<Longrightarrow>
     toDateString ev (now ev - 86400000) = toDateString ev (now ev) - 1"
  by (simp add: toDateString_def)

lemma update_streak_fixed_offset:
  assumes "zone ev (now ev - 86400000) = zone ev (now ev)"
  shows "streak (update_streak ev p) =
     (case lastCompletedDate p of
        None \<Rightarrow> 1
      | Some l \<Rightarrow>
          if toDateString ev l = toDateString ev (now ev) then streak p
          else if toDateString ev l = toDateString ev (now ev) - 1 then streak p + 1
          else 1)"
  using yesterday_fixed_offset [OF assms]
  by (cases "lastCompletedDate p") (auto simp: update_streak_def Let_def)

text \<open>
  Claim C3, at an input where the code departs from it.  The last completion falls
  on local day 19792 (Sunday 10 March 2024) and the call on local day 19793
  (Monday 11 March), so the last completion was yesterday and the claim asks
  for a streak of 6.  \<^verbatim>\<open>new Date(Date.now() - 86400000).toDateString()\<close> is the
  date of the instant 24 hours before, local day 19791 (Saturday 9 March, since
  Sunday had 23 hours), so the code takes the streak for broken and sets it to 1.
\<close>

theorem streak_reset_after_clock_change:
  "lastCompletedDate (getProgress dst_storage) = Some 1710086400000 \<and>
   streak (getProgress dst_storage) = 5 \<and>
   toDateString dst_env 1710086400000 = 19792 \<and>
   toDateString dst_env (now dst_env) = 19793 \<and>
   toDateString dst_env (now dst_env - 86400000) = 19791 \<and>
   markDayComplete dst_env 1 2 dst_storage =
     Inr (dst_result, empty_storage\<lparr>PROGRESS := Some (Doc dst_result)\<rparr>) \<and>
   streak dst_result = 1"
  by code_simp

end
